theory Spec2Isabelle
  imports Complex_Main
begin

section \<open>Values, errors and list subscripts\<close>

text \<open>
  Humidity, temperature and timestamps are Python floats. They are modelled as
  reals: every finite float is a real, the comparisons, \<open>max\<close> and \<open>min\<close> of
  the source are exact on floats, and SQLite stores a REAL column as the same
  8-byte value it was given. The two \<open>random.uniform\<close> draws and \<open>time.time()\<close>
  are inputs of the functions that use them. Rounding of the float additions is
  not modelled; no statement below depends on the exact sum.
\<close>

datatype py_error = IndexError | ValueError | StatisticsError | OverflowError

text \<open>\<open>xs[i]\<close> for a Python int \<open>i\<close>: indices from \<open>-len\<close> to \<open>len - 1\<close> are valid.\<close>

fun subscript :: "'a list \<Rightarrow> int \<Rightarrow> py_error + 'a" where
  "subscript xs i =
     (if 0 \<le> i \<and> i < int (length xs) then Inr (xs ! nat i)
      else if - int (length xs) \<le> i \<and> i < 0 then Inr (xs ! nat (int (length xs) + i))
      else Inl IndexError)"

section \<open>pseudo\_sensor.py: the signal generator\<close>

definition h_range :: "int list" where
  "h_range = [0, 20, 20, 40, 40, 60, 60, 80, 80, 90, 70, 50, 30, 10, 0]"

definition t_range :: "int list" where
  "t_range = [-20, -10, 0, 10, 30, 50, 70, 85, 95, 100, 90, 70, 50, 30, 10]"

record pseudo_sensor =
  h_index :: int
  t_index :: int
  hum_val :: real
  temp_val :: real

text \<open>\<open>PseudoSensor.__init__\<close>\<close>

definition sensor_init :: pseudo_sensor where
  "sensor_init =
     \<lparr>h_index = 0, t_index = 0,
      hum_val = of_int (h_range ! 0), temp_val = of_int (t_range ! 0)\<rparr>"

text \<open>
  \<open>PseudoSensor.generate_values\<close>. \<open>u10\<close> is the value of \<open>random.uniform(0, 10)\<close>
  and \<open>u5\<close> the value of \<open>random.uniform(0, 5)\<close>. The result is the returned pair
  \<open>(h, t)\<close> together with the updated object.
\<close>

definition generate_values ::
  "pseudo_sensor \<Rightarrow> real \<Rightarrow> real \<Rightarrow> py_error + ((real \<times> real) \<times> pseudo_sensor)" where
  "generate_values s u10 u5 =
     (case subscript h_range (h_index s) of
        Inl e \<Rightarrow> Inl e
      | Inr hb \<Rightarrow>
          (case subscript t_range (t_index s) of
             Inl e \<Rightarrow> Inl e
           | Inr tb \<Rightarrow>
               (let s1 = s\<lparr>hum_val := of_int hb + u10\<rparr>;
                    s2 = s1\<lparr>temp_val := of_int tb + u5\<rparr>;
                    s3 = s2\<lparr>h_index := (h_index s2 + 1) mod int (length h_range)\<rparr>;
                    s4 = s3\<lparr>t_index := (t_index s3 + 1) mod int (length t_range)\<rparr>;
                    h = max 0 (min (hum_val s4) 100);
                    t = max (- 20) (min (temp_val s4) 100)
                in Inr ((h, t), s4))))"

text \<open>The band indices a sensor object can subscript its tables with.\<close>

definition band_indices_ok :: "pseudo_sensor \<Rightarrow> bool" where
  "band_indices_ok s \<longleftrightarrow>
     - int (length h_range) \<le> h_index s \<and> h_index s < int (length h_range) \<and>
     - int (length t_range) \<le> t_index s \<and> t_index s < int (length t_range)"

definition in_range :: "real \<Rightarrow> real \<Rightarrow> bool" where
  "in_range h t \<longleftrightarrow> 0 \<le> h \<and> h \<le> 100 \<and> - 20 \<le> t \<and> t \<le> 100"

section \<open>main.py: the reading store\<close>

text \<open>
  A row of the table \<open>readings (ts, humidity, temperature)\<close>, as the tuple that
  \<open>fetchall\<close> returns. The table is the list of its rows in insertion order.
  Failures of the database file itself (I/O errors) are outside the model.
\<close>

type_synonym row = "real \<times> real \<times> real"

fun row_ts :: "row \<Rightarrow> real" where
  "row_ts (ts, h, t) = ts"

fun row_h :: "row \<Rightarrow> real" where
  "row_h (ts, h, t) = h"

fun row_t :: "row \<Rightarrow> real" where
  "row_t (ts, h, t) = t"

text \<open>
  \<open>ORDER BY ts DESC\<close>: the rows sorted by descending timestamp. SQL leaves the
  order of rows with equal timestamps open; the model keeps them in insertion
  order (a stable sort).
\<close>

definition order_by_ts_desc :: "row list \<Rightarrow> row list" where
  "order_by_ts_desc rows = sort_key (\<lambda>r. - row_ts r) rows"

text \<open>\<open>LIMIT n\<close>: SQLite puts no upper bound on the result when \<open>n\<close> is negative.\<close>

definition sql_limit :: "int \<Rightarrow> 'a list \<Rightarrow> 'a list" where
  "sql_limit n rows = (if n < 0 then rows else take (nat n) rows)"

section \<open>main.py: the application object\<close>

text \<open>
  The text a label shows is kept as the value that is formatted into it (the
  formatting \<open>:.1f\<close> and \<open>fmt_ts\<close> itself is not modelled); \<open>None\<close> is the
  placeholder text of \<open>__init__\<close>. A progress bar holds the integer last given to
  \<open>setValue\<close>. A button is its enabled flag, the timer its \<open>isActive\<close> flag.
\<close>

datatype status =
    Ready
  | Read_1_done
  | Starting_10_reads
  | Reading_batch_remaining int
  | Read_10_complete

record app =
  sensor :: pseudo_sensor
  conn :: "row list"
  h_label :: "real option"
  t_label :: "real option"
  ts_label :: "real option"
  h_bar :: "int option"
  t_bar :: "int option"
  h_alarm :: real
  t_alarm :: real
  alarm_label :: "string \<times> string"
  status_label :: status
  btn_read_one :: bool
  btn_read_ten :: bool
  batch_timer :: bool
  batch_remaining :: int

text \<open>The values drawn from the environment during one sample/store cycle.\<close>

record inputs =
  uniform10 :: real
  uniform5 :: real
  clock :: real

text \<open>\<open>SensorApp._insert_reading\<close>: returns the object and the timestamp stored.\<close>

definition insert_reading :: "app \<Rightarrow> real \<Rightarrow> real \<Rightarrow> real option \<Rightarrow> real \<Rightarrow> app \<times> real" where
  "insert_reading s h t ts_arg time_now =
     (let ts = (case ts_arg of None \<Rightarrow> time_now | Some given \<Rightarrow> given)
      in (s\<lparr>conn := conn s @ [(ts, h, t)]\<rparr>, ts))"

text \<open>
  A Python int is bound to a statement parameter as an SQLite INTEGER, a signed
  64-bit value; \<open>execute\<close> raises \<open>OverflowError\<close> for an int outside that range.
\<close>

definition sqlite_integer :: "int \<Rightarrow> bool" where
  "sqlite_integer n \<longleftrightarrow> - (2 ^ 63) \<le> n \<and> n < 2 ^ 63"

text \<open>\<open>SensorApp._fetch_last_n\<close>\<close>

definition fetch_last_n :: "app \<Rightarrow> int \<Rightarrow> py_error + row list" where
  "fetch_last_n s n =
     (if sqlite_integer n then Inr (sql_limit n (order_by_ts_desc (conn s)))
      else Inl OverflowError)"

text \<open>\<open>SensorApp._set_alarm_state\<close>: the label's text and its style sheet.\<close>

definition set_alarm_state :: "app \<Rightarrow> bool \<Rightarrow> app" where
  "set_alarm_state s alarm_on =
     (if alarm_on
      then s\<lparr>alarm_label :=
             (''ALARM!'',
              ''color: white; background:#c62828; padding:4px 8px; font-weight:700;'')\<rparr>
      else s\<lparr>alarm_label :=
             (''No alarms'',
              ''color: #2e7d32; background:#e8f5e9; padding:4px 8px; font-weight:600;'')\<rparr>)"

text \<open>\<open>SensorApp._check_alarms\<close>\<close>

definition check_alarms :: "app \<Rightarrow> real \<Rightarrow> real \<Rightarrow> app" where
  "check_alarms s h t = set_alarm_state s (h > h_alarm s \<or> t > t_alarm s)"

text \<open>\<open>int(x)\<close> on a float: truncation towards zero.\<close>

definition py_int :: "real \<Rightarrow> int" where
  "py_int x = (if 0 \<le> x then \<lfloor>x\<rfloor> else \<lceil>x\<rceil>)"

text \<open>\<open>SensorApp._update_latest_display\<close>\<close>

definition update_latest_display :: "app \<Rightarrow> real \<Rightarrow> real \<Rightarrow> real option \<Rightarrow> app" where
  "update_latest_display s h t ts_arg =
     (let h_clamped = max 0 (min (py_int h) 100);
          t_clamped = max (- 20) (min (py_int t) 100);
          s1 = s\<lparr>h_label := Some h\<rparr>;
          s2 = s1\<lparr>t_label := Some t\<rparr>;
          s3 = s2\<lparr>h_bar := Some h_clamped\<rparr>;
          s4 = s3\<lparr>t_bar := Some t_clamped\<rparr>;
          s5 = (case ts_arg of None \<Rightarrow> s4 | Some ts \<Rightarrow> s4\<lparr>ts_label := Some ts\<rparr>)
      in check_alarms s5 h t)"

text \<open>\<open>SensorApp.__init__\<close>, started on a database file that holds the rows \<open>db0\<close>.\<close>

definition init_app :: "row list \<Rightarrow> app" where
  "init_app db0 =
     set_alarm_state
       \<lparr>sensor = sensor_init, conn = db0,
        h_label = None, t_label = None, ts_label = None,
        h_bar = None, t_bar = None,
        h_alarm = 85, t_alarm = 90,
        alarm_label = (''No alarms'', []),
        status_label = Ready,
        btn_read_one = True, btn_read_ten = True,
        batch_timer = False, batch_remaining = 0\<rparr>
       False"

text \<open>\<open>SensorApp.read_one\<close>\<close>

definition read_one :: "app \<Rightarrow> inputs \<Rightarrow> py_error + app" where
  "read_one s inp =
     (case generate_values (sensor s) (uniform10 inp) (uniform5 inp) of
        Inl e \<Rightarrow> Inl e
      | Inr ((h, t), sen) \<Rightarrow>
          (let (s1, ts) = insert_reading (s\<lparr>sensor := sen\<rparr>) h t None (clock inp);
               s2 = update_latest_display s1 h t (Some ts)
           in Inr (s2\<lparr>status_label := Read_1_done\<rparr>)))"

text \<open>\<open>SensorApp.read_ten\<close>\<close>

definition read_ten :: "app \<Rightarrow> app" where
  "read_ten s =
     (if batch_timer s then s
      else (let s1 = s\<lparr>batch_remaining := 10\<rparr>;
                s2 = s1\<lparr>status_label := Starting_10_reads\<rparr>;
                s3 = s2\<lparr>btn_read_one := False\<rparr>;
                s4 = s3\<lparr>btn_read_ten := False\<rparr>
            in s4\<lparr>batch_timer := True\<rparr>))"

text \<open>\<open>SensorApp._batch_read_tick\<close>\<close>

definition batch_read_tick :: "app \<Rightarrow> inputs \<Rightarrow> py_error + app" where
  "batch_read_tick s inp =
     (case generate_values (sensor s) (uniform10 inp) (uniform5 inp) of
        Inl e \<Rightarrow> Inl e
      | Inr ((h, t), sen) \<Rightarrow>
          (let (s1, ts) = insert_reading (s\<lparr>sensor := sen\<rparr>) h t None (clock inp);
               s2 = update_latest_display s1 h t (Some ts);
               s3 = s2\<lparr>batch_remaining := batch_remaining s2 - 1\<rparr>;
               s4 = s3\<lparr>status_label := Reading_batch_remaining (batch_remaining s3)\<rparr>
           in if batch_remaining s4 \<le> 0
              then Inr (s4\<lparr>batch_timer := False, btn_read_one := True,
                           btn_read_ten := True, status_label := Read_10_complete\<rparr>)
              else Inr s4))"

text \<open>
  A run of timer ticks, one \<open>_batch_read_tick\<close> per element of the input list.
\<close>

fun run_ticks :: "inputs list \<Rightarrow> app \<Rightarrow> py_error + app" where
  "run_ticks [] s = Inr s"
| "run_ticks (inp # rest) s =
     (case batch_read_tick s inp of Inl e \<Rightarrow> Inl e | Inr s' \<Rightarrow> run_ticks rest s')"

subsection \<open>The statistics and records dialogs\<close>

text \<open>
  What a dialog shows: a fixed text, the statistics message (the number of rows,
  the newest timestamp, then minimum, maximum and mean of humidity and of
  temperature), or the list of records, oldest first.
\<close>

datatype message =
    Text string
  | Stats_text nat real real real real real real real

datatype dialog =
    Information string message
  | Records_dialog "row list"

text \<open>\<open>min\<close>, \<open>max\<close> and \<open>statistics.mean\<close>, which raise on an empty sequence.\<close>

fun py_min :: "real list \<Rightarrow> py_error + real" where
  "py_min [] = Inl ValueError"
| "py_min (x # xs) = Inr (fold min xs x)"

fun py_max :: "real list \<Rightarrow> py_error + real" where
  "py_max [] = Inl ValueError"
| "py_max (x # xs) = Inr (fold max xs x)"

fun mean :: "real list \<Rightarrow> py_error + real" where
  "mean [] = Inl StatisticsError"
| "mean (x # xs) = Inr (sum_list (x # xs) / real (length (x # xs)))"

definition and_then :: "py_error + 'a \<Rightarrow> ('a \<Rightarrow> py_error + 'b) \<Rightarrow> py_error + 'b" where
  "and_then r f = (case r of Inl e \<Rightarrow> Inl e | Inr v \<Rightarrow> f v)"

text \<open>\<open>SensorApp.show_stats\<close>: the dialog it opens; the object is unchanged.\<close>

definition show_stats :: "app \<Rightarrow> py_error + dialog" where
  "show_stats s =
     and_then (fetch_last_n s 10) (\<lambda>rows.
         if rows = [] then Inr (Information ''Stats'' (Text ''No readings available yet.''))
         else
           (let hs = map row_h rows; ts_vals = map row_t rows
            in and_then (subscript rows 0) (\<lambda>newest.
               and_then (py_min hs) (\<lambda>h_min.
               and_then (py_max hs) (\<lambda>h_max.
               and_then (mean hs) (\<lambda>h_avg.
               and_then (py_min ts_vals) (\<lambda>t_min.
               and_then (py_max ts_vals) (\<lambda>t_max.
               and_then (mean ts_vals) (\<lambda>t_avg.
                 Inr (Information ''Last 10 Stats''
                        (Stats_text (length rows) (row_ts newest)
                           h_min h_max h_avg t_min t_max t_avg)))))))))))"

text \<open>\<open>SensorApp.show_last10_records\<close>\<close>

definition show_last10_records :: "app \<Rightarrow> py_error + dialog" where
  "show_last10_records s =
     and_then (fetch_last_n s 10) (\<lambda>rows.
         if rows = []
         then Inr (Information ''Last 10 Records'' (Text ''No readings available yet.''))
         else Inr (Records_dialog (rev rows)))"

subsection \<open>The event loop\<close>

text \<open>
  The states of the application object between two slots. The object starts as
  \<open>__init__\<close> leaves it, on a database file holding \<open>db0\<close>. A click runs the slot
  of its button; Qt delivers a click only while the button is enabled, and the
  relation lets the two reading slots run in every state, which covers that. The
  timer emits \<open>timeout\<close> only while it is active. The user edits a threshold
  within the range of its spin box. \<open>show_stats\<close> and \<open>show_last10_records\<close>
  leave the object as it is, and after \<open>exit_app\<close> no slot runs.
\<close>

inductive reachable :: "row list \<Rightarrow> app \<Rightarrow> bool" for db0 :: "row list" where
  started: "reachable db0 (init_app db0)"
| clicked_read_one:
    "reachable db0 s \<Longrightarrow> read_one s inp = Inr s' \<Longrightarrow> reachable db0 s'"
| clicked_read_ten:
    "reachable db0 s \<Longrightarrow> reachable db0 (read_ten s)"
| timeout:
    "reachable db0 s \<Longrightarrow> batch_timer s \<Longrightarrow> batch_read_tick s inp = Inr s' \<Longrightarrow>
     reachable db0 s'"
| edited_h_alarm:
    "reachable db0 s \<Longrightarrow> 0 \<le> v \<Longrightarrow> v \<le> 100 \<Longrightarrow> reachable db0 (s\<lparr>h_alarm := v\<rparr>)"
| edited_t_alarm:
    "reachable db0 s \<Longrightarrow> - 20 \<le> v \<Longrightarrow> v \<le> 100 \<Longrightarrow> reachable db0 (s\<lparr>t_alarm := v\<rparr>)"

section \<open>Properties of the signal generator\<close>

lemma length_h_range: "length h_range = 15"
  by (simp add: h_range_def)

lemma length_t_range: "length t_range = 15"
  by (simp add: t_range_def)

lemma subscript_ok:
  assumes "- int (length xs) \<le> i" and "i < int (length xs)"
  shows "\<exists>v. subscript xs i = Inr v"
  using assms by simp

lemma generate_values_returns:
  assumes "band_indices_ok s"
  shows "\<exists>h t s'. generate_values s u10 u5 = Inr ((h, t), s')"
proof -
  from assms obtain hb where hb: "subscript h_range (h_index s) = Inr hb"
    unfolding band_indices_ok_def using subscript_ok by blast
  from assms obtain tb where tb: "subscript t_range (t_index s) = Inr tb"
    unfolding band_indices_ok_def using subscript_ok by blast
  show ?thesis
    unfolding generate_values_def hb tb by (simp add: Let_def)
qed

lemma generate_values_clamped:
  assumes "generate_values s u10 u5 = Inr ((h, t), s')"
  shows "in_range h t"
  using assms unfolding generate_values_def in_range_def
  by (auto simp: Let_def split: sum.splits)

lemma generate_values_indices:
  assumes "generate_values s u10 u5 = Inr ((h, t), s')"
  shows "h_index s' = (h_index s + 1) mod 15 \<and> t_index s' = (t_index s + 1) mod 15"
  using assms unfolding generate_values_def
  by (auto simp: Let_def length_h_range length_t_range split: sum.splits)

lemma generate_values_keeps_ok:
  assumes "generate_values s u10 u5 = Inr ((h, t), s')"
  shows "band_indices_ok s'"
proof -
  have nonneg: "- 15 \<le> (i + 1) mod 15 \<and> (i + 1) mod 15 < 15" for i :: int
    using pos_mod_sign [of 15 "i + 1"] pos_mod_bound [of 15 "i + 1"] by simp
  from generate_values_indices [OF assms] nonneg show ?thesis
    by (simp add: band_indices_ok_def length_h_range length_t_range)
qed

text \<open>
  C4. For every generator state whose band indices subscript the band tables and
  for every pair of jitter values, one call to \<open>generate_values\<close> returns, and the
  returned humidity lies in [0,100] and the returned temperature in [-20,100].
  No bound on the jitter values is needed: the clamp alone gives the range.
\<close>

theorem generate_values_in_range:
  assumes "band_indices_ok s"
  shows "\<exists>h t s'. generate_values s u10 u5 = Inr ((h, t), s') \<and>
           0 \<le> h \<and> h \<le> 100 \<and> - 20 \<le> t \<and> t \<le> 100"
proof -
  from generate_values_returns [OF assms]
  obtain h t s' where r: "generate_values s u10 u5 = Inr ((h, t), s')" by blast
  from generate_values_clamped [OF r] have "0 \<le> h \<and> h \<le> 100 \<and> - 20 \<le> t \<and> t \<le> 100"
    by (simp add: in_range_def)
  with r show ?thesis by blast
qed

text \<open>
  An instance where the clamp acts: band index 9 (bands 90 and 100) with the
  largest jitter gives the raw values 100 and 105, returned as 100 and 100.
\<close>

theorem generate_values_in_range_witness:
  "band_indices_ok \<lparr>h_index = 9, t_index = 9, hum_val = 0, temp_val = 0\<rparr> \<and>
   generate_values \<lparr>h_index = 9, t_index = 9, hum_val = 0, temp_val = 0\<rparr> 10 5 =
     Inr ((100, 100), \<lparr>h_index = 10, t_index = 10, hum_val = 100, temp_val = 105\<rparr>) \<and>
   (\<exists>h t s'. generate_values \<lparr>h_index = 9, t_index = 9, hum_val = 0, temp_val = 0\<rparr> 10 5
                = Inr ((h, t), s') \<and>
              0 \<le> h \<and> h \<le> 100 \<and> - 20 \<le> t \<and> t \<le> 100)"
proof -
  have ok: "band_indices_ok \<lparr>h_index = 9, t_index = 9, hum_val = 0, temp_val = 0\<rparr>"
    by (simp add: band_indices_ok_def h_range_def t_range_def)
  have run: "generate_values \<lparr>h_index = 9, t_index = 9, hum_val = 0, temp_val = 0\<rparr> 10 5 =
     Inr ((100, 100), \<lparr>h_index = 10, t_index = 10, hum_val = 100, temp_val = 105\<rparr>)"
    by (simp add: generate_values_def h_range_def t_range_def Let_def)
  from generate_values_in_range [OF ok] ok run show ?thesis by blast
qed

section \<open>Properties of the reading store\<close>

lemma length_order_by_ts_desc: "length (order_by_ts_desc rows) = length rows"
  by (simp add: order_by_ts_desc_def)

lemma sorted_order_by_ts_desc:
  "sorted_wrt (\<lambda>a b. row_ts b \<le> row_ts a) (order_by_ts_desc rows)"
proof -
  have "sorted (map (\<lambda>r. - row_ts r) (sort_key (\<lambda>r. - row_ts r) rows))"
    by (rule sorted_sort_key)
  then show ?thesis
    by (simp add: order_by_ts_desc_def sorted_map)
qed

lemma sorted_sql_limit:
  assumes "sorted_wrt P rows"
  shows "sorted_wrt P (sql_limit n rows)"
  using assms by (simp add: sql_limit_def sorted_wrt_take)

lemma length_sql_limit:
  assumes "0 \<le> n"
  shows "int (length (sql_limit n rows)) \<le> n"
  using assms by (simp add: sql_limit_def)

lemma insort_below_head:
  assumes "\<forall>y\<in>set xs. f x < f y"
  shows "foldr (insort_key f) xs (x # zs) = x # foldr (insort_key f) xs zs"
  using assms by (induction xs) auto

lemma order_by_ts_desc_newest:
  assumes "\<forall>r\<in>set rows. row_ts r < row_ts x"
  shows "order_by_ts_desc (rows @ [x]) = x # order_by_ts_desc rows"
proof -
  have "\<forall>y\<in>set rows. - row_ts x < - row_ts y"
    using assms by simp
  then have "foldr (insort_key (\<lambda>r. - row_ts r)) rows [x] =
             x # foldr (insort_key (\<lambda>r. - row_ts r)) rows []"
    by (rule insort_below_head)
  then show ?thesis
    by (simp add: order_by_ts_desc_def sort_key_def)
qed

text \<open>
  C1 (as amended). When the timestamp that \<open>_insert_reading\<close> records is strictly
  greater than the timestamp of every row already in the store, \<open>_fetch_last_n(1)\<close>
  after the insert returns exactly one row: the timestamp returned by the insert
  with the inserted humidity and temperature. The query orders by timestamp, not
  by insertion, so the condition on the prior rows is needed; see the
  counterexample below.
\<close>

theorem insert_then_fetch_newest:
  assumes "\<forall>r\<in>set (conn s). row_ts r < snd (insert_reading s h t ts_arg time_now)"
  shows "fetch_last_n (fst (insert_reading s h t ts_arg time_now)) 1 =
           Inr [(snd (insert_reading s h t ts_arg time_now), h, t)]"
proof -
  define ts where "ts = snd (insert_reading s h t ts_arg time_now)"
  have stored: "conn (fst (insert_reading s h t ts_arg time_now)) = conn s @ [(ts, h, t)]"
    by (simp add: ts_def insert_reading_def Let_def)
  from assms have "\<forall>r\<in>set (conn s). row_ts r < row_ts (ts, h, t)"
    by (simp add: ts_def)
  then have "order_by_ts_desc (conn s @ [(ts, h, t)]) = (ts, h, t) # order_by_ts_desc (conn s)"
    by (rule order_by_ts_desc_newest)
  then show ?thesis
    unfolding fetch_last_n_def stored ts_def [symmetric]
    by (simp add: sql_limit_def sqlite_integer_def)
qed

text \<open>An instance: one older row in the store, then an insert a minute later.\<close>

theorem insert_then_fetch_newest_witness:
  "fetch_last_n (fst (insert_reading (init_app [(1700000000, 50, 50)]) 10 20 None 1700000060)) 1 =
     Inr [(1700000060, 10, 20)] \<and>
   snd (insert_reading (init_app [(1700000000, 50, 50)]) 10 20 None 1700000060) = 1700000060"
proof -
  have ret: "snd (insert_reading (init_app [(1700000000, 50, 50)]) 10 20 None 1700000060)
               = 1700000060"
    by (simp add: insert_reading_def)
  have older: "\<forall>r\<in>set (conn (init_app [(1700000000, 50, 50)])).
                 row_ts r < snd (insert_reading (init_app [(1700000000, 50, 50)]) 10 20 None 1700000060)"
    unfolding ret by (simp add: init_app_def set_alarm_state_def)
  from insert_then_fetch_newest [OF older] ret show ?thesis by simp
qed

text \<open>
  C1 as stated fails: the store holds a row stamped 2000000000, the insert of
  (10, 20) happens at clock 1700000000, and \<open>_fetch_last_n(1)\<close> returns the old
  row, the one with the greatest timestamp.
\<close>

theorem insert_then_fetch_counterexample:
  "snd (insert_reading (init_app [(2000000000, 50, 50)]) 10 20 None 1700000000) = 1700000000 \<and>
   fetch_last_n (fst (insert_reading (init_app [(2000000000, 50, 50)]) 10 20 None 1700000000)) 1 =
     Inr [(2000000000, 50, 50)] \<and>
   fetch_last_n (fst (insert_reading (init_app [(2000000000, 50, 50)]) 10 20 None 1700000000)) 1 \<noteq>
     Inr [(snd (insert_reading (init_app [(2000000000, 50, 50)]) 10 20 None 1700000000), 10, 20)]"
  by (simp add: insert_reading_def init_app_def set_alarm_state_def fetch_last_n_def
      sqlite_integer_def sql_limit_def order_by_ts_desc_def sort_key_def)

text \<open>
  C2 (as amended). For every store content and every integer \<open>n\<close> that fits a
  signed 64-bit SQLite INTEGER, \<open>_fetch_last_n(n)\<close> returns a list of rows in
  descending order of timestamp; when \<open>n \<ge> 0\<close> the list has at most \<open>n\<close> rows; and
  on an empty store the list is empty. For an \<open>n\<close> outside the signed 64-bit
  range the call raises \<open>OverflowError\<close>, on an empty store as on any other.
\<close>

theorem fetch_last_n_bounded_sorted:
  "(sqlite_integer n \<longrightarrow>
      (\<exists>rows. fetch_last_n s n = Inr rows \<and>
         (0 \<le> n \<longrightarrow> int (length rows) \<le> n) \<and>
         sorted_wrt (\<lambda>a b. row_ts b \<le> row_ts a) rows \<and>
         (conn s = [] \<longrightarrow> rows = []))) \<and>
   (\<not> sqlite_integer n \<longrightarrow> fetch_last_n s n = Inl OverflowError)"
proof (intro conjI impI)
  assume fits: "sqlite_integer n"
  define rows where "rows = sql_limit n (order_by_ts_desc (conn s))"
  from fits have ret: "fetch_last_n s n = Inr rows"
    by (simp add: fetch_last_n_def rows_def)
  have bound: "0 \<le> n \<longrightarrow> int (length rows) \<le> n"
    unfolding rows_def using length_sql_limit by blast
  have ordered: "sorted_wrt (\<lambda>a b. row_ts b \<le> row_ts a) rows"
    unfolding rows_def by (rule sorted_sql_limit) (rule sorted_order_by_ts_desc)
  have empty: "conn s = [] \<longrightarrow> rows = []"
    by (simp add: rows_def order_by_ts_desc_def sql_limit_def)
  from ret bound ordered empty
  show "\<exists>rows. fetch_last_n s n = Inr rows \<and>
         (0 \<le> n \<longrightarrow> int (length rows) \<le> n) \<and>
         sorted_wrt (\<lambda>a b. row_ts b \<le> row_ts a) rows \<and>
         (conn s = [] \<longrightarrow> rows = [])"
    by blast
next
  assume "\<not> sqlite_integer n"
  then show "fetch_last_n s n = Inl OverflowError"
    by (simp add: fetch_last_n_def)
qed

text \<open>
  An instance: three rows and \<open>n = 2\<close>; the empty store; and \<open>n = 2 ^ 63\<close>, the
  first value that no longer fits.
\<close>

theorem fetch_last_n_bounded_sorted_witness:
  "sqlite_integer 2 \<and>
   fetch_last_n (init_app [(1, 50, 50), (3, 60, 60), (2, 70, 70)]) 2 =
     Inr [(3, 60, 60), (2, 70, 70)] \<and>
   int (length [(3, 60, 60), (2, 70, 70) :: row]) \<le> 2 \<and>
   sorted_wrt (\<lambda>a b. row_ts b \<le> row_ts a) [(3, 60, 60), (2, 70, 70)] \<and>
   fetch_last_n (init_app []) 2 = Inr [] \<and>
   \<not> sqlite_integer 9223372036854775808 \<and>
   fetch_last_n (init_app []) 9223372036854775808 = Inl OverflowError"
proof -
  have fits: "sqlite_integer 2"
    by (simp add: sqlite_integer_def)
  have big: "\<not> sqlite_integer 9223372036854775808"
    by (simp add: sqlite_integer_def)
  have e: "conn (init_app []) = []"
    by (simp add: init_app_def set_alarm_state_def)
  have v: "fetch_last_n (init_app [(1, 50, 50), (3, 60, 60), (2, 70, 70)]) 2 =
             Inr [(3, 60, 60), (2, 70, 70)]"
    by (simp add: init_app_def set_alarm_state_def fetch_last_n_def sqlite_integer_def
      sql_limit_def order_by_ts_desc_def sort_key_def)
  from fetch_last_n_bounded_sorted [of 2 "init_app [(1, 50, 50), (3, 60, 60), (2, 70, 70)]"]
    fits v
  have three: "int (length [(3, 60, 60), (2, 70, 70) :: row]) \<le> 2 \<and>
               sorted_wrt (\<lambda>a b. row_ts b \<le> row_ts a) [(3, 60, 60), (2, 70, 70)]"
    by auto
  from fetch_last_n_bounded_sorted [of 2 "init_app []"] fits e
  have none: "fetch_last_n (init_app []) 2 = Inr []"
    by auto
  from fetch_last_n_bounded_sorted [of 9223372036854775808 "init_app []"] big
  have over: "fetch_last_n (init_app []) 9223372036854775808 = Inl OverflowError"
    by blast
  from fits v three none big over show ?thesis by blast
qed

text \<open>
  C2 as stated fails twice. For a negative \<open>n\<close>, \<open>LIMIT -1\<close> is no limit, and the
  query returns both rows of a two-row store, more than \<open>n\<close>. For \<open>n = 2 ^ 63\<close>
  the call on an empty store raises \<open>OverflowError\<close> instead of returning an
  empty sequence.
\<close>

theorem fetch_last_n_counterexample:
  "fetch_last_n (init_app [(1, 50, 50), (2, 60, 60)]) (- 1) = Inr [(2, 60, 60), (1, 50, 50)] \<and>
   \<not> int (length [(2, 60, 60), (1, 50, 50) :: row]) \<le> - 1 \<and>
   conn (init_app []) = [] \<and>
   fetch_last_n (init_app []) 9223372036854775808 = Inl OverflowError"
  by (simp add: init_app_def set_alarm_state_def fetch_last_n_def sqlite_integer_def
      sql_limit_def order_by_ts_desc_def sort_key_def)

section \<open>Properties of the alarm rule and of the commands\<close>

text \<open>
  C3. For every humidity, temperature and pair of thresholds, \<open>_check_alarms\<close>
  sets the alarm indicator to ALARM! if and only if the humidity is greater than
  the humidity threshold or the temperature is greater than the temperature
  threshold; when both values equal their thresholds the indicator shows
  No alarms.
\<close>

theorem check_alarms_rule:
  "(fst (alarm_label (check_alarms s h t)) = ''ALARM!'') = (h > h_alarm s \<or> t > t_alarm s) \<and>
   fst (alarm_label (check_alarms (s\<lparr>h_alarm := h, t_alarm := t\<rparr>) h t)) = ''No alarms''"
  by (simp add: check_alarms_def set_alarm_state_def)

text \<open>
  An instance with the default thresholds 85 and 90: the reading (90, 95) raises
  the alarm, and the reading (85, 90), equal to the thresholds, does not.
\<close>

theorem check_alarms_rule_witness:
  "fst (alarm_label (check_alarms (init_app []) 90 95)) = ''ALARM!'' \<and>
   fst (alarm_label (check_alarms (init_app []) 85 90)) = ''No alarms''"
proof -
  have th: "h_alarm (init_app []) = 85" "t_alarm (init_app []) = 90"
    by (simp_all add: init_app_def set_alarm_state_def)
  have same: "(init_app [])\<lparr>h_alarm := 85, t_alarm := 90\<rparr> = init_app []"
    by (simp add: init_app_def set_alarm_state_def)
  from check_alarms_rule [of "init_app []" 90 95] check_alarms_rule [of "init_app []" 85 90]
    th same
  show ?thesis by simp
qed

text \<open>
  C7. In every state in which the batch timer is active, \<open>read_ten\<close> returns the
  application object unchanged: remaining count, timer, buttons, store and
  sensor state, and every other field, are as before.
\<close>

theorem read_ten_while_running:
  assumes "batch_timer s"
  shows "read_ten s = s"
  using assms by (simp add: read_ten_def)

text \<open>An instance: a second \<open>read_ten\<close> right after the first.\<close>

theorem read_ten_while_running_witness:
  "batch_timer (read_ten (init_app [])) \<and>
   read_ten (read_ten (init_app [])) = read_ten (init_app [])"
proof -
  have running: "batch_timer (read_ten (init_app []))"
    by (simp add: read_ten_def Let_def)
  from read_ten_while_running [OF running] running show ?thesis by simp
qed

text \<open>
  C8. On an empty store \<open>show_stats\<close> opens the information dialog titled Stats
  with the text "No readings available yet." and returns: the result is that
  dialog, neither an error nor the statistics message.
\<close>

theorem show_stats_empty:
  assumes "conn s = []"
  shows "show_stats s = Inr (Information ''Stats'' (Text ''No readings available yet.''))"
  using assms
  by (simp add: show_stats_def and_then_def fetch_last_n_def sqlite_integer_def
      order_by_ts_desc_def sql_limit_def)


text \<open>An instance: the application started on an empty database.\<close>

theorem show_stats_empty_witness:
  "conn (init_app []) = [] \<and>
   show_stats (init_app []) = Inr (Information ''Stats'' (Text ''No readings available yet.''))"
proof -
  have e: "conn (init_app []) = []"
    by (simp add: init_app_def set_alarm_state_def)
  from show_stats_empty [OF e] e show ?thesis by simp
qed

section \<open>Properties of the sampling controller\<close>

lemma update_latest_display_frame:
  "sensor (update_latest_display s h t a) = sensor s"
  "conn (update_latest_display s h t a) = conn s"
  "batch_remaining (update_latest_display s h t a) = batch_remaining s"
  "batch_timer (update_latest_display s h t a) = batch_timer s"
  "btn_read_one (update_latest_display s h t a) = btn_read_one s"
  "btn_read_ten (update_latest_display s h t a) = btn_read_ten s"
  "h_alarm (update_latest_display s h t a) = h_alarm s"
  "t_alarm (update_latest_display s h t a) = t_alarm s"
  by (simp_all add: update_latest_display_def check_alarms_def set_alarm_state_def Let_def
      split: option.splits)

lemma update_latest_display_shows:
  "h_label (update_latest_display s h t (Some ts)) = Some h"
  "t_label (update_latest_display s h t (Some ts)) = Some t"
  "ts_label (update_latest_display s h t (Some ts)) = Some ts"
  "h_bar (update_latest_display s h t (Some ts)) = Some (max 0 (min (py_int h) 100))"
  "t_bar (update_latest_display s h t (Some ts)) = Some (max (- 20) (min (py_int t) 100))"
  "(fst (alarm_label (update_latest_display s h t (Some ts))) = ''ALARM!'') =
     (h > h_alarm s \<or> t > t_alarm s)"
  by (simp_all add: update_latest_display_def check_alarms_def set_alarm_state_def Let_def)

lemma read_one_unfold:
  assumes "generate_values (sensor s) (uniform10 inp) (uniform5 inp) = Inr ((h, t), sen)"
  shows "read_one s inp =
           Inr ((update_latest_display (s\<lparr>sensor := sen, conn := conn s @ [(clock inp, h, t)]\<rparr>)
                  h t (Some (clock inp)))\<lparr>status_label := Read_1_done\<rparr>)"
  using assms by (simp add: read_one_def insert_reading_def Let_def)

lemma batch_read_tick_unfold:
  assumes "generate_values (sensor s) (uniform10 inp) (uniform5 inp) = Inr ((h, t), sen)"
  shows "\<exists>s'. batch_read_tick s inp = Inr s' \<and>
           sensor s' = sen \<and>
           conn s' = conn s @ [(clock inp, h, t)] \<and>
           batch_remaining s' = batch_remaining s - 1 \<and>
           h_alarm s' = h_alarm s \<and> t_alarm s' = t_alarm s \<and>
           (if batch_remaining s \<le> 1
            then \<not> batch_timer s' \<and> btn_read_one s' \<and> btn_read_ten s'
            else batch_timer s' = batch_timer s \<and> btn_read_one s' = btn_read_one s \<and>
                 btn_read_ten s' = btn_read_ten s)"
  using assms
  by (simp add: batch_read_tick_def insert_reading_def Let_def update_latest_display_frame)


lemma generate_values_cases:
  assumes "generate_values sen0 a b = Inr v"
  obtains h t sen where "v = ((h, t), sen)" and "in_range h t" and "band_indices_ok sen"
proof -
  obtain h t sen where v: "v = ((h, t), sen)" by (metis surj_pair)
  with assms have g: "generate_values sen0 a b = Inr ((h, t), sen)" by simp
  from generate_values_clamped [OF g] generate_values_keeps_ok [OF g] v that
  show thesis by blast
qed

lemma read_one_step:
  assumes "read_one s inp = Inr s'"
  shows "\<exists>r. conn s' = conn s @ [r] \<and> in_range (row_h r) (row_t r) \<and>
           band_indices_ok (sensor s') \<and>
           batch_remaining s' = batch_remaining s \<and> batch_timer s' = batch_timer s"
proof (cases "generate_values (sensor s) (uniform10 inp) (uniform5 inp)")
  case (Inl e)
  with assms show ?thesis by (simp add: read_one_def)
next
  case (Inr v)
  then obtain h t sen where v: "v = ((h, t), sen)" and r: "in_range h t"
    and ok: "band_indices_ok sen"
    by (rule generate_values_cases)
  from Inr v have "read_one s inp =
      Inr ((update_latest_display (s\<lparr>sensor := sen, conn := conn s @ [(clock inp, h, t)]\<rparr>)
             h t (Some (clock inp)))\<lparr>status_label := Read_1_done\<rparr>)"
    by (simp add: read_one_unfold)
  with assms have s': "s' = (update_latest_display
      (s\<lparr>sensor := sen, conn := conn s @ [(clock inp, h, t)]\<rparr>)
      h t (Some (clock inp)))\<lparr>status_label := Read_1_done\<rparr>"
    by simp
  have "conn s' = conn s @ [(clock inp, h, t)]"
    by (simp add: s' update_latest_display_frame)
  moreover have "in_range (row_h (clock inp, h, t)) (row_t (clock inp, h, t))"
    using r by simp
  moreover have "band_indices_ok (sensor s')"
    using ok by (simp add: s' update_latest_display_frame)
  moreover have "batch_remaining s' = batch_remaining s" "batch_timer s' = batch_timer s"
    by (simp_all add: s' update_latest_display_frame)
  ultimately show ?thesis by blast
qed

lemma batch_read_tick_step:
  assumes "batch_read_tick s inp = Inr s'"
  shows "\<exists>r. conn s' = conn s @ [r] \<and> in_range (row_h r) (row_t r) \<and>
           band_indices_ok (sensor s') \<and>
           batch_remaining s' = batch_remaining s - 1 \<and>
           (if batch_remaining s \<le> 1
            then \<not> batch_timer s' \<and> btn_read_one s' \<and> btn_read_ten s'
            else batch_timer s' = batch_timer s \<and> btn_read_one s' = btn_read_one s \<and>
                 btn_read_ten s' = btn_read_ten s)"
proof (cases "generate_values (sensor s) (uniform10 inp) (uniform5 inp)")
  case (Inl e)
  with assms show ?thesis by (simp add: batch_read_tick_def)
next
  case (Inr v)
  then obtain h t sen where v: "v = ((h, t), sen)" and r: "in_range h t"
    and ok: "band_indices_ok sen"
    by (rule generate_values_cases)
  from Inr v have g: "generate_values (sensor s) (uniform10 inp) (uniform5 inp) = Inr ((h, t), sen)"
    by simp
  from batch_read_tick_unfold [OF g] assms
  have "sensor s' = sen" and "conn s' = conn s @ [(clock inp, h, t)]"
    and "batch_remaining s' = batch_remaining s - 1"
    and "if batch_remaining s \<le> 1
         then \<not> batch_timer s' \<and> btn_read_one s' \<and> btn_read_ten s'
         else batch_timer s' = batch_timer s \<and> btn_read_one s' = btn_read_one s \<and>
              btn_read_ten s' = btn_read_ten s"
    by auto
  moreover have "in_range (row_h (clock inp, h, t)) (row_t (clock inp, h, t))"
    using r by simp
  ultimately show ?thesis using ok by blast
qed

lemma batch_read_tick_returns:
  assumes "band_indices_ok (sensor s)"
  shows "\<exists>s'. batch_read_tick s inp = Inr s'"
proof -
  from generate_values_returns [OF assms]
  obtain h t sen where "generate_values (sensor s) (uniform10 inp) (uniform5 inp) = Inr ((h, t), sen)"
    by blast
  from batch_read_tick_unfold [OF this] show ?thesis by blast
qed

lemma init_app_fields:
  "sensor (init_app db0) = sensor_init"
  "conn (init_app db0) = db0"
  "batch_timer (init_app db0) = False"
  "batch_remaining (init_app db0) = 0"
  "btn_read_one (init_app db0) = True"
  "btn_read_ten (init_app db0) = True"
  "h_alarm (init_app db0) = 85"
  "t_alarm (init_app db0) = 90"
  by (simp_all add: init_app_def set_alarm_state_def)

lemma sensor_init_ok: "band_indices_ok sensor_init"
  by (simp add: band_indices_ok_def sensor_init_def length_h_range length_t_range)

lemma read_ten_fields:
  "sensor (read_ten s) = sensor s"
  "conn (read_ten s) = conn s"
  "h_alarm (read_ten s) = h_alarm s"
  "t_alarm (read_ten s) = t_alarm s"
  "batch_timer (read_ten s) = True"
  "batch_remaining (read_ten s) = (if batch_timer s then batch_remaining s else 10)"
  "btn_read_one (read_ten s) = (if batch_timer s then btn_read_one s else False)"
  "btn_read_ten (read_ten s) = (if batch_timer s then btn_read_ten s else False)"
  by (simp_all add: read_ten_def Let_def)

lemma reachable_sensor_ok:
  assumes "reachable db0 s"
  shows "band_indices_ok (sensor s)"
  using assms
proof (induction rule: reachable.induct)
  case started
  show ?case by (simp add: init_app_fields sensor_init_ok)
next
  case (clicked_read_one s inp s')
  from read_one_step [OF clicked_read_one.hyps(2)] show ?case by blast
next
  case (clicked_read_ten s)
  then show ?case by (simp add: read_ten_fields)
next
  case (timeout s inp s')
  from batch_read_tick_step [OF timeout.hyps(3)] show ?case by blast
next
  case (edited_h_alarm s v)
  then show ?case by simp
next
  case (edited_t_alarm s v)
  then show ?case by simp
qed

text \<open>
  C5. In every reachable state of the application, the store is the content the
  database file had at start followed by the rows written by \<open>read_one\<close> and by
  the batch ticks, and every one of these rows has its humidity in [0,100] and
  its temperature in [-20,100]. The store itself checks nothing:
  \<open>_insert_reading\<close> appends whatever humidity and temperature it is given.
\<close>

theorem persisted_readings_in_range:
  assumes "reachable db0 s"
  shows "(\<exists>new. conn s = db0 @ new \<and> (\<forall>r\<in>set new. in_range (row_h r) (row_t r))) \<and>
         (\<forall>h t ts_arg time_now.
            conn (fst (insert_reading s h t ts_arg time_now)) =
              conn s @ [(snd (insert_reading s h t ts_arg time_now), h, t)])"
proof
  show "\<exists>new. conn s = db0 @ new \<and> (\<forall>r\<in>set new. in_range (row_h r) (row_t r))"
    using assms
  proof (induction rule: reachable.induct)
    case started
    show ?case by (simp add: init_app_fields)
  next
    case (clicked_read_one s inp s')
    from clicked_read_one.IH obtain new
      where new: "conn s = db0 @ new" "\<forall>r\<in>set new. in_range (row_h r) (row_t r)"
      by blast
    from read_one_step [OF clicked_read_one.hyps(2)] obtain r
      where r: "conn s' = conn s @ [r]" "in_range (row_h r) (row_t r)"
      by blast
    from new r have "conn s' = db0 @ (new @ [r])"
      and "\<forall>x\<in>set (new @ [r]). in_range (row_h x) (row_t x)"
      by simp_all
    then show ?case by blast
  next
    case (clicked_read_ten s)
    then show ?case by (simp add: read_ten_fields)
  next
    case (timeout s inp s')
    from timeout.IH obtain new
      where new: "conn s = db0 @ new" "\<forall>r\<in>set new. in_range (row_h r) (row_t r)"
      by blast
    from batch_read_tick_step [OF timeout.hyps(3)] obtain r
      where r: "conn s' = conn s @ [r]" "in_range (row_h r) (row_t r)"
      by blast
    from new r have "conn s' = db0 @ (new @ [r])"
      and "\<forall>x\<in>set (new @ [r]). in_range (row_h x) (row_t x)"
      by simp_all
    then show ?case by blast
  next
    case (edited_h_alarm s v)
    then show ?case by simp
  next
    case (edited_t_alarm s v)
    then show ?case by simp
  qed
next
  show "\<forall>h t ts_arg time_now.
          conn (fst (insert_reading s h t ts_arg time_now)) =
            conn s @ [(snd (insert_reading s h t ts_arg time_now), h, t)]"
    by (simp add: insert_reading_def Let_def)
qed

text \<open>
  An instance: the application starts on a database that already holds an
  out-of-range row, and one \<open>read_one\<close> appends the row (7, 3, -18).
\<close>

theorem persisted_readings_in_range_witness:
  "\<exists>s. read_one (init_app [(1, 500, - 300)]) \<lparr>uniform10 = 3, uniform5 = 2, clock = 7\<rparr> = Inr s \<and>
        reachable [(1, 500, - 300)] s \<and>
        conn s = [(1, 500, - 300), (7, 3, - 18)] \<and>
        in_range (row_h (7, 3, - 18)) (row_t (7, 3, - 18))"
proof -
  define inp where "inp = \<lparr>uniform10 = 3, uniform5 = 2, clock = 7\<rparr>"
  define db0 :: "row list" where "db0 = [(1, 500, - 300)]"
  have "band_indices_ok (sensor (init_app db0))"
    by (simp add: init_app_fields sensor_init_ok)
  from generate_values_returns [OF this]
  obtain h t sen
    where g: "generate_values (sensor (init_app db0)) (uniform10 inp) (uniform5 inp) =
                Inr ((h, t), sen)"
    by blast
  then have ht: "h = 3" "t = - 18"
    by (auto simp: generate_values_def init_app_fields sensor_init_def h_range_def t_range_def
        inp_def Let_def)
  from read_one_unfold [OF g] obtain s
    where run: "read_one (init_app db0) inp = Inr s"
      and s: "s = (update_latest_display
                     ((init_app db0)\<lparr>sensor := sen, conn := conn (init_app db0) @ [(clock inp, h, t)]\<rparr>)
                     h t (Some (clock inp)))\<lparr>status_label := Read_1_done\<rparr>"
    by blast
  have reach: "reachable db0 s"
    using reachable.started run by (rule reachable.clicked_read_one)
  have rows: "conn s = db0 @ [(7, 3, - 18)]"
    by (simp add: s update_latest_display_frame init_app_fields ht inp_def)
  from persisted_readings_in_range [OF reach] obtain new
    where "conn s = db0 @ new" and all: "\<forall>r\<in>set new. in_range (row_h r) (row_t r)"
    by blast
  with rows have "new = [(7, 3, - 18)]" by simp
  with all have "in_range (row_h (7, 3, - 18)) (row_t (7, 3, - 18))" by simp
  with run reach rows show ?thesis
    unfolding inp_def db0_def by auto
qed

text \<open>
  C9. In every reachable state between two slots, the batch timer is active if
  and only if \<open>batch_remaining\<close> is positive, and \<open>batch_remaining\<close> is never
  negative.
\<close>

theorem timer_active_iff_remaining:
  assumes "reachable db0 s"
  shows "(batch_timer s \<longleftrightarrow> 0 < batch_remaining s) \<and> 0 \<le> batch_remaining s"
  using assms
proof (induction rule: reachable.induct)
  case started
  show ?case by (simp add: init_app_fields)
next
  case (clicked_read_one s inp s')
  from read_one_step [OF clicked_read_one.hyps(2)] clicked_read_one.IH
  show ?case by auto
next
  case (clicked_read_ten s)
  then show ?case by (simp add: read_ten_fields)
next
  case (timeout s inp s')
  from timeout.IH timeout.hyps(2) have pos: "0 < batch_remaining s" by simp
  from batch_read_tick_step [OF timeout.hyps(3)]
  have rem: "batch_remaining s' = batch_remaining s - 1"
    and tm: "if batch_remaining s \<le> 1 then \<not> batch_timer s' else batch_timer s' = batch_timer s"
    by auto
  show ?case
  proof (cases "batch_remaining s \<le> 1")
    case True
    with pos rem tm show ?thesis by simp
  next
    case False
    with pos rem tm timeout.hyps(2) show ?thesis by simp
  qed
next
  case (edited_h_alarm s v)
  then show ?case by simp
next
  case (edited_t_alarm s v)
  then show ?case by simp
qed


text \<open>An instance: right after \<open>read_ten\<close> the timer runs and ten reads remain.\<close>

theorem timer_active_iff_remaining_witness:
  "reachable [] (read_ten (init_app [])) \<and>
   batch_timer (read_ten (init_app [])) \<and>
   0 < batch_remaining (read_ten (init_app [])) \<and>
   batch_remaining (read_ten (init_app [])) = 10"
proof -
  have reach: "reachable [] (read_ten (init_app []))"
    using reachable.started by (rule reachable.clicked_read_ten)
  have running: "batch_timer (read_ten (init_app []))"
    by (simp add: read_ten_fields)
  from timer_active_iff_remaining [OF reach] running
  have "0 < batch_remaining (read_ten (init_app []))" by simp
  moreover have "batch_remaining (read_ten (init_app [])) = 10"
    by (simp add: read_ten_fields init_app_fields)
  ultimately show ?thesis using reach running by simp
qed

lemma run_ticks_completes:
  assumes "band_indices_ok (sensor s)" and "batch_remaining s = int (length inps)"
    and "inps \<noteq> []"
  shows "\<exists>s' new. run_ticks inps s = Inr s' \<and> batch_remaining s' = 0 \<and>
           \<not> batch_timer s' \<and> btn_read_one s' \<and> btn_read_ten s' \<and>
           conn s' = conn s @ new \<and> length new = length inps"
  using assms
proof (induction inps arbitrary: s)
  case Nil
  then show ?case by simp
next
  case (Cons inp rest)
  from batch_read_tick_returns [OF Cons.prems(1)]
  obtain s1 where tick: "batch_read_tick s inp = Inr s1" by blast
  from batch_read_tick_step [OF tick] obtain r
    where r: "conn s1 = conn s @ [r]" and ok1: "band_indices_ok (sensor s1)"
      and rem1: "batch_remaining s1 = batch_remaining s - 1"
      and last: "batch_remaining s \<le> 1 \<longrightarrow>
                   \<not> batch_timer s1 \<and> btn_read_one s1 \<and> btn_read_ten s1"
    by (auto split: if_splits)
  from rem1 Cons.prems(2) have rem1': "batch_remaining s1 = int (length rest)" by simp
  show ?case
  proof (cases "rest = []")
    case True
    with Cons.prems(2) last have "\<not> batch_timer s1 \<and> btn_read_one s1 \<and> btn_read_ten s1"
      by simp
    moreover from True rem1' have "batch_remaining s1 = 0" by simp
    moreover from True tick have "run_ticks (inp # rest) s = Inr s1" by simp
    moreover from True have "length [r] = length (inp # rest)" by simp
    ultimately show ?thesis using r by blast
  next
    case False
    from Cons.IH [OF ok1 rem1' False] obtain s' new
      where run: "run_ticks rest s1 = Inr s'" and fin: "batch_remaining s' = 0"
        "\<not> batch_timer s'" "btn_read_one s'" "btn_read_ten s'"
        and new: "conn s' = conn s1 @ new" "length new = length rest"
      by blast
    from tick run have "run_ticks (inp # rest) s = Inr s'" by simp
    moreover from new r have "conn s' = conn s @ (r # new)"
      and "length (r # new) = length (inp # rest)"
      by simp_all
    ultimately show ?thesis using fin by blast
  qed
qed

lemma run_ticks_in_progress:
  assumes "band_indices_ok (sensor s)" and "batch_remaining s = int (length inps)"
    and "batch_timer s" and "k < length inps"
  shows "\<exists>sk. run_ticks (take k inps) s = Inr sk \<and> batch_timer sk \<and>
           batch_remaining sk = int (length inps) - int k"
  using assms
proof (induction inps arbitrary: s k)
  case Nil
  then show ?case by simp
next
  case (Cons inp rest)
  show ?case
  proof (cases k)
    case 0
    with Cons.prems show ?thesis by simp
  next
    case (Suc j)
    with Cons.prems(4) have j: "j < length rest" by simp
    from batch_read_tick_returns [OF Cons.prems(1)]
    obtain s1 where tick: "batch_read_tick s inp = Inr s1" by blast
    from j have "rest \<noteq> []" by auto
    with Cons.prems(2) have more: "\<not> batch_remaining s \<le> 1" by (cases rest) auto
    from batch_read_tick_step [OF tick] more Cons.prems(3)
    have ok1: "band_indices_ok (sensor s1)"
      and rem1: "batch_remaining s1 = batch_remaining s - 1"
      and tm1: "batch_timer s1"
      by auto
    from rem1 Cons.prems(2) have rem1': "batch_remaining s1 = int (length rest)" by simp
    from Cons.IH [OF ok1 rem1' tm1 j] obtain sk
      where "run_ticks (take j rest) s1 = Inr sk" and "batch_timer sk"
        and "batch_remaining sk = int (length rest) - int j"
      by blast
    with tick Suc show ?thesis by simp
  qed
qed

text \<open>
  C6. From a state with the timer inactive, \<open>read_ten\<close> followed by ten ticks
  returns, and ends with \<open>batch_remaining = 0\<close>, the timer stopped, the Read 1 and
  Read 10 buttons enabled, and exactly ten rows appended to the store. Before
  each of the ten ticks the timer is still active, with \<open>10 - k\<close> reads remaining
  after \<open>k\<close> ticks.
\<close>

theorem read_ten_then_ten_ticks:
  assumes "\<not> batch_timer s" and "band_indices_ok (sensor s)" and "length inps = 10"
  shows "(\<exists>s' new. run_ticks inps (read_ten s) = Inr s' \<and> batch_remaining s' = 0 \<and>
            \<not> batch_timer s' \<and> btn_read_one s' \<and> btn_read_ten s' \<and>
            conn s' = conn s @ new \<and> length new = 10) \<and>
         (\<forall>k<10. \<exists>sk. run_ticks (take k inps) (read_ten s) = Inr sk \<and> batch_timer sk \<and>
            batch_remaining sk = 10 - int k)"
proof
  have ok: "band_indices_ok (sensor (read_ten s))"
    using assms(2) by (simp add: read_ten_fields)
  have rem: "batch_remaining (read_ten s) = int (length inps)"
    using assms(1,3) by (simp add: read_ten_fields)
  have ne: "inps \<noteq> []"
    using assms(3) by auto
  from run_ticks_completes [OF ok rem ne] assms(3)
  show "\<exists>s' new. run_ticks inps (read_ten s) = Inr s' \<and> batch_remaining s' = 0 \<and>
            \<not> batch_timer s' \<and> btn_read_one s' \<and> btn_read_ten s' \<and>
            conn s' = conn s @ new \<and> length new = 10"
    by (simp add: read_ten_fields)
  have tm: "batch_timer (read_ten s)"
    by (simp add: read_ten_fields)
  show "\<forall>k<10. \<exists>sk. run_ticks (take k inps) (read_ten s) = Inr sk \<and> batch_timer sk \<and>
            batch_remaining sk = 10 - int k"
  proof (intro allI impI)
    fix k :: nat
    assume "k < 10"
    with assms(3) have "k < length inps" by simp
    from run_ticks_in_progress [OF ok rem tm this] assms(3)
    show "\<exists>sk. run_ticks (take k inps) (read_ten s) = Inr sk \<and> batch_timer sk \<and>
            batch_remaining sk = 10 - int k"
      by simp
  qed
qed

text \<open>An instance: a batch started right after start-up on an empty database.\<close>

theorem read_ten_then_ten_ticks_witness:
  "\<not> batch_timer (init_app []) \<and> band_indices_ok (sensor (init_app [])) \<and>
   length (replicate 10 \<lparr>uniform10 = 3, uniform5 = 2, clock = 7\<rparr>) = 10 \<and>
   (\<exists>s'. run_ticks (replicate 10 \<lparr>uniform10 = 3, uniform5 = 2, clock = 7\<rparr>)
            (read_ten (init_app [])) = Inr s' \<and>
          batch_remaining s' = 0 \<and> \<not> batch_timer s' \<and> btn_read_one s' \<and> btn_read_ten s' \<and>
          length (conn s') = 10)"
proof -
  have idle: "\<not> batch_timer (init_app [])"
    by (simp add: init_app_fields)
  have ok: "band_indices_ok (sensor (init_app []))"
    by (simp add: init_app_fields sensor_init_ok)
  have len: "length (replicate 10 \<lparr>uniform10 = 3, uniform5 = 2, clock = 7\<rparr>) = 10"
    by simp
  from read_ten_then_ten_ticks [OF idle ok len] obtain s' new
    where "run_ticks (replicate 10 \<lparr>uniform10 = 3, uniform5 = 2, clock = 7\<rparr>)
             (read_ten (init_app [])) = Inr s'"
      and "batch_remaining s' = 0" and "\<not> batch_timer s'"
      and "btn_read_one s'" and "btn_read_ten s'"
      and "conn s' = conn (init_app []) @ new" and "length new = 10"
    by blast
  moreover from this have "length (conn s') = 10"
    by (simp add: init_app_fields)
  ultimately show ?thesis using idle ok len by blast
qed

text \<open>
  C10. \<open>read_one\<close> has no guard on the batch state. In every state (the sensor's
  band indices within their tables), whether or not a batch is running, it
  returns after the whole cycle: the sensor is sampled and advanced, exactly one
  row with the sampled values is appended to the store, the labels show the
  sample, the bars show its truncated values clamped to their ranges, the alarm
  indicator follows the alarm rule, the status reads
  "Read 1: done."; and \<open>batch_remaining\<close> and the timer's active flag are as
  before.
\<close>

theorem read_one_in_any_state:
  assumes "band_indices_ok (sensor s)"
  shows "\<exists>h t sen s'.
           generate_values (sensor s) (uniform10 inp) (uniform5 inp) = Inr ((h, t), sen) \<and>
           read_one s inp = Inr s' \<and>
           sensor s' = sen \<and>
           conn s' = conn s @ [(clock inp, h, t)] \<and>
           h_label s' = Some h \<and> t_label s' = Some t \<and> ts_label s' = Some (clock inp) \<and>
           h_bar s' = Some (max 0 (min (py_int h) 100)) \<and>
           t_bar s' = Some (max (- 20) (min (py_int t) 100)) \<and>
           (fst (alarm_label s') = ''ALARM!'') = (h > h_alarm s \<or> t > t_alarm s) \<and>
           status_label s' = Read_1_done \<and>
           batch_remaining s' = batch_remaining s \<and>
           batch_timer s' = batch_timer s"
proof -
  from generate_values_returns [OF assms]
  obtain h t sen
    where g: "generate_values (sensor s) (uniform10 inp) (uniform5 inp) = Inr ((h, t), sen)"
    by blast
  define s' where "s' = (update_latest_display
      (s\<lparr>sensor := sen, conn := conn s @ [(clock inp, h, t)]\<rparr>)
      h t (Some (clock inp)))\<lparr>status_label := Read_1_done\<rparr>"
  have ret: "read_one s inp = Inr s'"
    unfolding s'_def by (rule read_one_unfold [OF g])
  have "sensor s' = sen" "conn s' = conn s @ [(clock inp, h, t)]"
    "batch_remaining s' = batch_remaining s" "batch_timer s' = batch_timer s"
    "status_label s' = Read_1_done"
    by (simp_all add: s'_def update_latest_display_frame)
  moreover have "h_label s' = Some h" "t_label s' = Some t" "ts_label s' = Some (clock inp)"
    "h_bar s' = Some (max 0 (min (py_int h) 100))"
    "t_bar s' = Some (max (- 20) (min (py_int t) 100))"
    by (simp_all add: s'_def update_latest_display_shows)
  moreover have "(fst (alarm_label s') = ''ALARM!'') = (h > h_alarm s \<or> t > t_alarm s)"
    using update_latest_display_shows(6)
      [of "s\<lparr>sensor := sen, conn := conn s @ [(clock inp, h, t)]\<rparr>" h t "clock inp"]
    by (simp add: s'_def)
  ultimately show ?thesis using g ret by blast
qed

text \<open>An instance: \<open>read_one\<close> while a batch is running.\<close>

theorem read_one_in_any_state_witness:
  "band_indices_ok (sensor (read_ten (init_app []))) \<and>
   batch_timer (read_ten (init_app [])) \<and>
   (\<exists>s'. read_one (read_ten (init_app [])) \<lparr>uniform10 = 3, uniform5 = 2, clock = 7\<rparr> = Inr s' \<and>
          conn s' = [(7, 3, - 18)] \<and>
          batch_remaining s' = 10 \<and> batch_timer s')"
proof -
  define inp where "inp = \<lparr>uniform10 = 3, uniform5 = 2, clock = 7\<rparr>"
  have ok: "band_indices_ok (sensor (read_ten (init_app [])))"
    by (simp add: read_ten_fields init_app_fields sensor_init_ok)
  have running: "batch_timer (read_ten (init_app []))"
    by (simp add: read_ten_fields)
  from read_one_in_any_state [OF ok, of inp] obtain h t sen s'
    where g: "generate_values (sensor (read_ten (init_app []))) (uniform10 inp) (uniform5 inp) =
                Inr ((h, t), sen)"
      and run: "read_one (read_ten (init_app [])) inp = Inr s'"
      and rows: "conn s' = conn (read_ten (init_app [])) @ [(clock inp, h, t)]"
      and same: "batch_remaining s' = batch_remaining (read_ten (init_app []))"
        "batch_timer s' = batch_timer (read_ten (init_app []))"
    by blast
  from g have "h = 3" "t = - 18"
    by (auto simp: generate_values_def read_ten_fields init_app_fields sensor_init_def
        h_range_def t_range_def inp_def Let_def)
  with rows have "conn s' = [(7, 3, - 18)]"
    by (simp add: read_ten_fields init_app_fields inp_def)
  moreover from same have "batch_remaining s' = 10" "batch_timer s'"
    by (simp_all add: read_ten_fields init_app_fields)
  ultimately show ?thesis using ok running run unfolding inp_def by blast
qed

end
